theory Spec2Isabelle
  imports Main "HOL-Library.Word"
begin

section \<open>ESP32-C3 GPIO monitor with WiFi configuration portal\<close>

text \<open>
  A shallow embedding of the sketch \<^verbatim>\<open>ESP32-C3-Mini-WebserverGPIOmonitor02.ino\<close>.
  The sketch is one single-threaded program: \<^verbatim>\<open>setup()\<close> runs once after power-on,
  then \<^verbatim>\<open>loop()\<close> runs for ever; HTTP handlers run inside \<^verbatim>\<open>server.handleClient()\<close>.
  Every function of the sketch becomes a function on an explicit device state.

  The platform libraries (WiFi, Preferences, DNSServer, WebServer) are not part of the
  sketch. They are modelled by the small amount of state the sketch can observe through
  the calls it makes; what the environment decides (radio status readings, pin levels,
  incoming requests) is an argument of the operation.
\<close>

subsection \<open>Data\<close>

text \<open>The result of \<^verbatim>\<open>WiFi.status()\<close> (the Arduino \<^verbatim>\<open>wl_status_t\<close> enumeration).\<close>

datatype wl_status_t =
    WL_NO_SHIELD
  | WL_IDLE_STATUS
  | WL_NO_SSID_AVAIL
  | WL_SCAN_COMPLETED
  | WL_CONNECTED
  | WL_CONNECT_FAILED
  | WL_CONNECTION_LOST
  | WL_DISCONNECTED

text \<open>The radio mode selected by \<^verbatim>\<open>WiFi.mode(...)\<close>.\<close>

datatype wifi_mode_t = WIFI_OFF | WIFI_STA | WIFI_AP

datatype IPAddress = IPAddress nat nat nat nat

text \<open>
  Bodies handed to \<^verbatim>\<open>server.send\<close>. The HTML pages are named, not spelled out: no
  property below depends on their markup. JSON and plain text bodies are kept as text.
\<close>

datatype body =
    RootPage
  | ConfigPage
  | ScanPage
  | ConnectPage string
  | ResetPage
  | Text string

text \<open>One pending HTTP request, as routed by \<^verbatim>\<open>setupWebServer\<close>.\<close>

datatype request =
    GET_root
  | GET_gpio
  | GET_scan
  | POST_connect string string
  | POST_reset
  | GET_api_gpio
  | Unrouted

text \<open>
  The device state. \<open>nvs\<close> is the content of the Preferences namespace \<^verbatim>\<open>"wifi"\<close>
  (the only one the sketch opens) and survives a restart; everything else is RAM or
  peripheral state. \<open>ssid\<close>, \<open>password\<close> and \<open>configMode\<close> are the sketch's globals.
  \<open>booted\<close> tells whether \<^verbatim>\<open>setup()\<close> has completed since the last power-on or restart.
  \<open>sta_status\<close> is the station status the radio last reported (or was forced to by
  \<^verbatim>\<open>WiFi.disconnect()\<close>); \<open>softAP\<close> is the broadcast network, \<open>dns\<close> the captive
  resolver's configuration (domain and answer) while it runs. \<open>clock\<close> is \<^verbatim>\<open>millis()\<close>,
  an \<^verbatim>\<open>unsigned long\<close> of 32 bits. \<open>polls\<close> counts the status readings taken so far.
  The last three fields are observation logs: every \<^verbatim>\<open>WiFi.begin\<close> with its arguments
  (\<^verbatim>\<open>connectToWiFi\<close> is its only caller), every response sent, every name-resolution
  answer given.
\<close>

record state =
  nvs :: "string \<rightharpoonup> string"
  ssid :: string
  password :: string
  configMode :: bool
  booted :: bool
  wifi_mode :: wifi_mode_t
  sta_status :: wl_status_t
  softAP :: "(string \<times> string) option"
  dns :: "(string \<times> IPAddress) option"
  clock :: "32 word"
  polls :: nat
  attempts :: "(string \<times> string) list"
  responses :: "(nat \<times> string \<times> body) list"
  dns_answers :: "(string \<times> IPAddress option) list"

subsection \<open>Constants of the sketch\<close>

definition GPIO_PINS :: "int list" where
  "GPIO_PINS = [0, 1, 3, 4, 5]"

definition NUM_PINS :: nat where
  "NUM_PINS = 5"

definition DNS_PORT :: nat where
  "DNS_PORT = 53"

definition ap_ssid :: string where
  "ap_ssid = ''ESP32-C3-Config''"

definition ap_password :: string where
  "ap_password = ''12345678''"

definition WIFI_TIMEOUT :: "32 word" where
  "WIFI_TIMEOUT = 10000"

definition HIGH :: int where
  "HIGH = 1"

subsection \<open>Platform calls\<close>

text \<open>
  Power-on: RAM holds the initialisers of the globals, the radio is off, the clock
  starts; the flash content is what it was. \<^verbatim>\<open>ESP.restart()\<close> is a power-on that keeps
  the flash; the observation logs and the environment's sequence go on.
\<close>

definition power_on :: "(string \<rightharpoonup> string) \<Rightarrow> state" where
  "power_on flash =
     \<lparr> nvs = flash, ssid = [], password = [], configMode = False, booted = False,
       wifi_mode = WIFI_OFF, sta_status = WL_NO_SHIELD, softAP = None, dns = None,
       clock = 0, polls = 0, attempts = [], responses = [], dns_answers = [] \<rparr>"

definition ESP_restart :: "state \<Rightarrow> state" where
  "ESP_restart s =
     (power_on (nvs s))\<lparr>polls := polls s, attempts := attempts s,
       responses := responses s, dns_answers := dns_answers s\<rparr>"

text \<open>\<^verbatim>\<open>delay(ms)\<close> lets the clock advance by \<open>ms\<close>; \<^verbatim>\<open>millis()\<close> reads it.\<close>

definition delay :: "32 word \<Rightarrow> state \<Rightarrow> state" where
  "delay ms s = s\<lparr>clock := clock s + ms\<rparr>"

definition millis :: "state \<Rightarrow> 32 word" where
  "millis s = clock s"

text \<open>
  Preferences: \<^verbatim>\<open>getString(key, default)\<close> returns the stored value or the default,
  \<^verbatim>\<open>putString\<close> overwrites one key, \<^verbatim>\<open>clear()\<close> removes every key of the namespace.
\<close>

definition getString :: "string \<Rightarrow> string \<Rightarrow> state \<Rightarrow> string" where
  "getString key dflt s = (case nvs s key of None \<Rightarrow> dflt | Some v \<Rightarrow> v)"

definition putString :: "string \<Rightarrow> string \<Rightarrow> state \<Rightarrow> state" where
  "putString key v s = s\<lparr>nvs := (nvs s)(key \<mapsto> v)\<rparr>"

definition preferences_clear :: "state \<Rightarrow> state" where
  "preferences_clear s = s\<lparr>nvs := Map.empty\<rparr>"

text \<open>
  The radio. A sequence \<open>env\<close> of status readings is the environment's part:
  the \<open>k\<close>-th call of \<^verbatim>\<open>WiFi.status()\<close> returns \<open>env k\<close>.
  \<open>WiFi_status\<close> is the value returned, \<open>polled\<close> the effect of the call.
\<close>

definition WiFi_status :: "(nat \<Rightarrow> wl_status_t) \<Rightarrow> state \<Rightarrow> wl_status_t" where
  "WiFi_status env s = env (polls s)"

definition polled :: "(nat \<Rightarrow> wl_status_t) \<Rightarrow> state \<Rightarrow> state" where
  "polled env s = s\<lparr>sta_status := env (polls s), polls := Suc (polls s)\<rparr>"

definition WiFi_mode :: "wifi_mode_t \<Rightarrow> state \<Rightarrow> state" where
  "WiFi_mode m s = s\<lparr>wifi_mode := m\<rparr>"

definition WiFi_begin :: "string \<Rightarrow> string \<Rightarrow> state \<Rightarrow> state" where
  "WiFi_begin n p s = s\<lparr>attempts := attempts s @ [(n, p)]\<rparr>"

definition WiFi_disconnect :: "state \<Rightarrow> state" where
  "WiFi_disconnect s = s\<lparr>sta_status := WL_DISCONNECTED\<rparr>"

definition WiFi_softAP :: "string \<Rightarrow> string \<Rightarrow> state \<Rightarrow> state" where
  "WiFi_softAP n p s = s\<lparr>softAP := Some (n, p)\<rparr>"

definition WiFi_softAPdisconnect :: "state \<Rightarrow> state" where
  "WiFi_softAPdisconnect s = s\<lparr>softAP := None\<rparr>"

text \<open>
  \<^verbatim>\<open>WiFi.softAPIP()\<close>: the address of the broadcast network's interface, which is
  192.168.4.1 (the address the README sends the user to) once the network is up.
\<close>

definition WiFi_softAPIP :: "state \<Rightarrow> IPAddress" where
  "WiFi_softAPIP s =
     (case softAP s of None \<Rightarrow> IPAddress 0 0 0 0 | Some _ \<Rightarrow> IPAddress 192 168 4 1)"

definition server_send :: "nat \<Rightarrow> string \<Rightarrow> body \<Rightarrow> state \<Rightarrow> state" where
  "server_send code ctype b s = s\<lparr>responses := responses s @ [(code, ctype, b)]\<rparr>"

subsection \<open>Credential store\<close>

definition loadCredentials :: "state \<Rightarrow> state" where
  "loadCredentials s =
     s\<lparr>ssid := getString ''ssid'' [] s, password := getString ''password'' [] s\<rparr>"

definition saveCredentials :: "string \<Rightarrow> string \<Rightarrow> state \<Rightarrow> state" where
  "saveCredentials newSSID newPassword s =
     (let s1 = putString ''ssid'' newSSID s;
          s2 = putString ''password'' newPassword s1
      in s2\<lparr>ssid := newSSID, password := newPassword\<rparr>)"

subsection \<open>Station connector\<close>

text \<open>
  The wait loop of \<^verbatim>\<open>connectToWiFi\<close>:
  \<^verbatim>\<open>while (WiFi.status() != WL_CONNECTED && millis() - startTime < WIFI_TIMEOUT) delay(500);\<close>
  The subtraction is that of \<^verbatim>\<open>unsigned long\<close> and wraps around.
\<close>

function wait_loop :: "(nat \<Rightarrow> wl_status_t) \<Rightarrow> 32 word \<Rightarrow> state \<Rightarrow> state" where
  "wait_loop env startTime s =
     (if WiFi_status env s \<noteq> WL_CONNECTED \<and> millis (polled env s) - startTime < WIFI_TIMEOUT
      then wait_loop env startTime (delay 500 (polled env s))
      else polled env s)"
  by pat_completeness auto

termination wait_loop
proof (relation "measure (\<lambda>(env, startTime, s). 10000 - unat (clock s - startTime))")
  show "wf (measure (\<lambda>(env, startTime, s). 10000 - unat (clock s - startTime)))"
    by simp
next
  fix env :: "nat \<Rightarrow> wl_status_t" and startTime :: "32 word" and s :: state
  let ?x = "clock s - startTime"
  assume a: "WiFi_status env s \<noteq> WL_CONNECTED \<and>
             millis (polled env s) - startTime < WIFI_TIMEOUT"
  then have lt: "?x < 10000"
    by (simp add: millis_def polled_def WIFI_TIMEOUT_def)
  then have u: "unat ?x < 10000"
    by (simp add: word_less_nat_alt)
  have "clock (delay 500 (polled env s)) - startTime = ?x + 500"
    by (simp add: delay_def polled_def)
  moreover from lt have "unat (?x + 500) = unat ?x + 500"
    by (simp add: unat_word_ariths word_less_nat_alt)
  ultimately have e: "unat (clock (delay 500 (polled env s)) - startTime) = unat ?x + 500"
    by (simp only:)
  from e u show "((env, startTime, delay 500 (polled env s)), (env, startTime, s))
      \<in> measure (\<lambda>(env, startTime, s). 10000 - unat (clock s - startTime))"
    by (simp only: in_measure split_conv)
qed

declare wait_loop.simps [simp del]

text \<open>
  \<^verbatim>\<open>connectToWiFi\<close> returns whether the station is connected, read once more after the
  loop. Success clears \<open>configMode\<close>; failure drops the half-open association.
\<close>

definition connectToWiFi ::
  "(nat \<Rightarrow> wl_status_t) \<Rightarrow> string \<Rightarrow> string \<Rightarrow> state \<Rightarrow> bool \<times> state" where
  "connectToWiFi env n p s =
     (let s1 = WiFi_mode WIFI_STA s;
          s2 = WiFi_begin n p s1;
          startTime = millis s2;
          s3 = wait_loop env startTime s2
      in if WiFi_status env s3 = WL_CONNECTED
         then (True, (polled env s3)\<lparr>configMode := False\<rparr>)
         else (False, WiFi_disconnect (polled env s3)))"

subsection \<open>Captive resolver\<close>

definition dnsServer_start :: "nat \<Rightarrow> string \<Rightarrow> IPAddress \<Rightarrow> state \<Rightarrow> state" where
  "dnsServer_start port domainName resolvedIP s = s\<lparr>dns := Some (domainName, resolvedIP)\<rparr>"

definition dnsServer_stop :: "state \<Rightarrow> state" where
  "dnsServer_stop s = s\<lparr>dns := None\<rparr>"

text \<open>
  Modelled from the spec: \<^verbatim>\<open>DNSServer::processNextRequest\<close>, which belongs to the platform
  library and not to the sketch. One non-blocking pass: with no query pending (or the
  resolver not running) nothing happens; a pending query for a name is answered with
  the configured address when the configured domain is the wildcard \<^verbatim>\<open>"*"\<close> or is the
  queried name, and with an error reply otherwise.
\<close>

definition dnsServer_processNextRequest :: "string option \<Rightarrow> state \<Rightarrow> state" where
  "dnsServer_processNextRequest query s =
     (case query of
        None \<Rightarrow> s
      | Some name \<Rightarrow>
          (case dns s of
             None \<Rightarrow> s
           | Some (domainName, resolvedIP) \<Rightarrow>
               if domainName = ''*'' \<or> name = domainName
               then s\<lparr>dns_answers := dns_answers s @ [(name, Some resolvedIP)]\<rparr>
               else s\<lparr>dns_answers := dns_answers s @ [(name, None)]\<rparr>))"

subsection \<open>Configuration portal\<close>

definition startConfigPortal :: "state \<Rightarrow> state" where
  "startConfigPortal s =
     (let s1 = s\<lparr>configMode := True\<rparr>;
          s2 = WiFi_disconnect s1;
          s3 = delay 100 s2;
          s4 = WiFi_mode WIFI_AP s3;
          s5 = WiFi_softAP ap_ssid ap_password s4;
          s6 = delay 500 s5
      in dnsServer_start DNS_PORT ''*'' (WiFi_softAPIP s6) s6)"

subsection \<open>HTTP handlers\<close>

text \<open>\<^verbatim>\<open>String(int)\<close>: the decimal numeral of a C \<^verbatim>\<open>int\<close>.\<close>

fun dec :: "nat \<Rightarrow> string" where
  "dec n = (if n < 10 then [''0123456789'' ! n]
            else dec (n div 10) @ [''0123456789'' ! (n mod 10)])"

declare dec.simps [simp del]

definition String_of_int :: "int \<Rightarrow> string" where
  "String_of_int i = (if i < 0 then CHR ''-'' # dec (nat (- i)) else dec (nat i))"

text \<open>\<^verbatim>\<open>digitalRead(pin)\<close>: the level of a pin is the environment's, \<open>pins\<close>.\<close>

definition digitalRead :: "(int \<Rightarrow> int) \<Rightarrow> int \<Rightarrow> int" where
  "digitalRead pins pin = pins pin"

text \<open>
  The loop of \<^verbatim>\<open>handleGPIOAPI\<close>, \<^verbatim>\<open>for (int i = 0; i < NUM_PINS; i++)\<close>, from index \<open>i\<close>
  with the text built so far.
\<close>

function gpio_loop :: "(int \<Rightarrow> int) \<Rightarrow> nat \<Rightarrow> string \<Rightarrow> string" where
  \<open>gpio_loop pins i json =
     (if i < NUM_PINS then
        (let pin = GPIO_PINS ! i;
             st = digitalRead pins pin;
             stateStr = (if st = HIGH then ''HIGH'' else ''LOW'');
             json1 = (if i > 0 then json @ '','' else json);
             json2 = json1 @ (''{"gpio":'' @ String_of_int pin @ '',"state":"'' @ stateStr @ ''"}'')
         in gpio_loop pins (Suc i) json2)
      else json)\<close>
  by pat_completeness auto

termination gpio_loop
  by (relation "measure (\<lambda>(pins, i, json). NUM_PINS - i)") auto

declare gpio_loop.simps [simp del]

definition handleGPIOAPI :: "(int \<Rightarrow> int) \<Rightarrow> state \<Rightarrow> state" where
  \<open>handleGPIOAPI pins s =
     (let json = ''{"pins":['';
          json1 = gpio_loop pins 0 json;
          json2 = json1 @ '']}''
      in server_send 200 ''application/json'' (Text json2) s)\<close>

definition handleRoot :: "state \<Rightarrow> state" where
  "handleRoot s = server_send 200 ''text/html'' RootPage s"

definition handleConfigPage :: "state \<Rightarrow> state" where
  "handleConfigPage s = server_send 200 ''text/html'' ConfigPage s"

definition handleScan :: "state \<Rightarrow> state" where
  "handleScan s = server_send 200 ''text/html'' ScanPage s"

text \<open>
  \<^verbatim>\<open>handleConnect\<close>: answer first, then store the submitted pair, take the portal down
  and try the new network; on failure the portal comes back.
\<close>

definition handleConnect ::
  "(nat \<Rightarrow> wl_status_t) \<Rightarrow> string \<Rightarrow> string \<Rightarrow> state \<Rightarrow> state" where
  "handleConnect env newSSID newPassword s =
     (let s1 = server_send 200 ''text/html'' (ConnectPage newSSID) s;
          s2 = delay 1000 s1;
          s3 = saveCredentials newSSID newPassword s2;
          s4 = dnsServer_stop s3;
          s5 = WiFi_softAPdisconnect s4;
          (ok, s6) = connectToWiFi env newSSID newPassword s5;
          s7 = (if ok then s6\<lparr>configMode := False\<rparr> else startConfigPortal s6)
      in delay 100 s7)"

text \<open>
  \<^verbatim>\<open>handleReset\<close>: answer, erase the namespace, wait two seconds, restart.
  \<^verbatim>\<open>ESP.restart()\<close> does not return: the result is the device after power-on.
\<close>

definition handleReset :: "state \<Rightarrow> state" where
  "handleReset s =
     (let s1 = server_send 200 ''text/html'' ResetPage s;
          s2 = preferences_clear s1;
          s3 = delay 2000 s2
      in ESP_restart s3)"

text \<open>
  \<^verbatim>\<open>server.handleClient()\<close> with the routes of \<^verbatim>\<open>setupWebServer\<close>: at most one pending
  request is dispatched to its handler.
\<close>

definition handleClient ::
  "(nat \<Rightarrow> wl_status_t) \<Rightarrow> (int \<Rightarrow> int) \<Rightarrow> request option \<Rightarrow> state \<Rightarrow> state" where
  "handleClient env pins req s =
     (case req of
        None \<Rightarrow> s
      | Some GET_root \<Rightarrow> (if configMode s then handleConfigPage s else handleRoot s)
      | Some GET_gpio \<Rightarrow> handleRoot s
      | Some GET_scan \<Rightarrow> handleScan s
      | Some (POST_connect n p) \<Rightarrow> handleConnect env n p s
      | Some POST_reset \<Rightarrow> handleReset s
      | Some GET_api_gpio \<Rightarrow> handleGPIOAPI pins s
      | Some Unrouted \<Rightarrow>
          (if configMode s then handleConfigPage s
           else server_send 404 ''text/plain'' (Text ''Not found'') s))"

subsection \<open>Boot and main loop\<close>

text \<open>\<^verbatim>\<open>setup()\<close> of the sketch (\<open>setup\<close> itself is a reserved word here).\<close>

definition setup_sketch :: "(nat \<Rightarrow> wl_status_t) \<Rightarrow> state \<Rightarrow> state" where
  "setup_sketch env s =
     (let s1 = delay 1000 s;
          s2 = loadCredentials s1;
          s3 = (if length (ssid s2) > 0 then
                  (let (ok, t) = connectToWiFi env (ssid s2) (password s2) s2
                   in if \<not> ok then startConfigPortal t else t)
                else startConfigPortal s2)
      in s3\<lparr>booted := True\<rparr>)"

text \<open>
  One pass of \<^verbatim>\<open>loop()\<close>, with the name-resolution query and the HTTP request that
  are pending when it starts. After a restart the rest of the pass does not run.
  The status is read only when \<open>configMode\<close> is off (\<^verbatim>\<open>&&\<close> evaluates left to right).
\<close>

definition loop ::
  "(nat \<Rightarrow> wl_status_t) \<Rightarrow> (int \<Rightarrow> int) \<Rightarrow> string option \<Rightarrow> request option \<Rightarrow> state \<Rightarrow> state" where
  "loop env pins query req s =
     (let s1 = (if configMode s then dnsServer_processNextRequest query s else s);
          s2 = handleClient env pins req s1
      in if \<not> booted s2 then s2
         else
           (let s3 = (if configMode s2 then s2
                      else if WiFi_status env s2 \<noteq> WL_CONNECTED then
                        (let (ok, t) = connectToWiFi env (ssid s2) (password s2) (polled env s2)
                         in if \<not> ok then startConfigPortal t else t)
                      else polled env s2)
            in delay 10 s3))"

subsection \<open>Connectivity modes\<close>

text \<open>
  The four modes of the connectivity manager, read off the device state. Each is
  stated by itself: the portal is on when the sketch's flag says so, the station is
  connected when the radio last said so.
\<close>

datatype ConnectivityMode = Uninitialized | Connecting | Connected | PortalActive

fun in_mode :: "ConnectivityMode \<Rightarrow> state \<Rightarrow> bool" where
  "in_mode Uninitialized s = (\<not> booted s)"
| "in_mode PortalActive s = (booted s \<and> configMode s)"
| "in_mode Connected s = (booted s \<and> sta_status s = WL_CONNECTED)"
| "in_mode Connecting s = (booted s \<and> \<not> configMode s \<and> sta_status s \<noteq> WL_CONNECTED)"

definition modes_of :: "state \<Rightarrow> ConnectivityMode list" where
  "modes_of s = filter (\<lambda>m. in_mode m s) [Uninitialized, Connecting, Connected, PortalActive]"

text \<open>
  The instants at which the device can be observed: after power-on, after
  \<^verbatim>\<open>setup()\<close>, and after each pass of \<^verbatim>\<open>loop()\<close>, whatever the environment does.
  (Nothing is served while one of these runs: the sketch has a single thread.)
\<close>

inductive reachable :: "state \<Rightarrow> bool" where
  reach_power_on: "reachable (power_on flash)"
| reach_setup: "reachable s \<Longrightarrow> \<not> booted s \<Longrightarrow> reachable (setup_sketch env s)"
| reach_loop: "reachable s \<Longrightarrow> booted s \<Longrightarrow> reachable (loop env pins query req s)"

subsection \<open>JSON documents\<close>

text \<open>
  A JSON value and its compact rendering, to say what a well-formed answer of the
  JSON endpoint is. In a string, the quote and the backslash are escaped.
\<close>

datatype json = JNum int | JStr string | JArr "json list" | JObj "member list"
  and member = Member string json

fun escape :: "string \<Rightarrow> string" where
  \<open>escape [] = []\<close>
| \<open>escape (c # cs) =
     (if c = CHR ''"'' \<or> c = CHR 0x5C then CHR 0x5C # c # escape cs else c # escape cs)\<close>

fun join :: "string list \<Rightarrow> string" where
  "join [] = []"
| "join [x] = x"
| "join (x # y # ys) = x @ '','' @ join (y # ys)"

fun render :: "json \<Rightarrow> string"
  and render_member :: "member \<Rightarrow> string" where
  \<open>render (JNum i) = String_of_int i\<close>
| \<open>render (JStr x) = ''"'' @ escape x @ ''"''\<close>
| \<open>render (JArr xs) = ''['' @ join (map render xs) @ '']''\<close>
| \<open>render (JObj ms) = ''{'' @ join (map render_member ms) @ ''}''\<close>
| \<open>render_member (Member k v) = ''"'' @ escape k @ ''":'' @ render v\<close>

text \<open>The document the JSON endpoint is to answer with, for given pin levels.\<close>

definition pin_entry :: "(int \<Rightarrow> int) \<Rightarrow> int \<Rightarrow> json" where
  "pin_entry pins pin =
     JObj [Member ''gpio'' (JNum pin),
           Member ''state'' (JStr (if pins pin = HIGH then ''HIGH'' else ''LOW''))]"

definition gpio_document :: "(int \<Rightarrow> int) \<Rightarrow> json" where
  "gpio_document pins = JObj [Member ''pins'' (JArr (map (pin_entry pins) [0, 1, 3, 4, 5]))]"

subsection \<open>Sample environments\<close>

definition never_connected :: "nat \<Rightarrow> wl_status_t" where
  "never_connected k = WL_DISCONNECTED"

definition always_connected :: "nat \<Rightarrow> wl_status_t" where
  "always_connected k = WL_CONNECTED"

definition connected_from :: "nat \<Rightarrow> nat \<Rightarrow> wl_status_t" where
  "connected_from n k = (if k < n then WL_IDLE_STATUS else WL_CONNECTED)"

definition pins_3_high :: "int \<Rightarrow> int" where
  "pins_3_high pin = (if pin = 3 then 1 else 0)"

definition home_flash :: "string \<rightharpoonup> string" where
  "home_flash = [''ssid'' \<mapsto> ''home'', ''password'' \<mapsto> ''secret123'']"

text \<open>A device with a stored credential whose network is out of reach: the portal is up.\<close>

definition portal_home :: state where
  "portal_home = setup_sketch never_connected (power_on home_flash)"

subsection \<open>Closed forms used in the proofs\<close>

text \<open>
  The state after the wait loop has gone round \<open>k\<close> times and has read the status
  once more, and the outcome of \<^verbatim>\<open>connectToWiFi\<close> when its loop goes round \<open>k\<close> times.
\<close>

definition waited :: "(nat \<Rightarrow> wl_status_t) \<Rightarrow> nat \<Rightarrow> state \<Rightarrow> state" where
  "waited env k s =
     s\<lparr>sta_status := env (polls s + k), polls := Suc (polls s + k),
       clock := clock s + 500 * of_nat k\<rparr>"

definition connect_after ::
  "(nat \<Rightarrow> wl_status_t) \<Rightarrow> string \<Rightarrow> string \<Rightarrow> nat \<Rightarrow> state \<Rightarrow> bool \<times> state" where
  "connect_after env n p k s =
     (let t = polled env (waited env k (WiFi_begin n p (WiFi_mode WIFI_STA s)))
      in if sta_status t = WL_CONNECTED then (True, t\<lparr>configMode := False\<rparr>)
         else (False, WiFi_disconnect t))"

text \<open>
  What holds of the radio and the resolver at the observable instants of a device that
  has booted: with the portal flag on, the station is disconnected, the broadcast
  network is up and the resolver answers every name with the portal's address; with the
  flag off, the station is connected.
\<close>

definition consistent :: "state \<Rightarrow> bool" where
  "consistent s =
     (if configMode s
      then sta_status s = WL_DISCONNECTED \<and> wifi_mode s = WIFI_AP
           \<and> softAP s = Some (ap_ssid, ap_password)
           \<and> dns s = Some (''*'', IPAddress 192 168 4 1)
      else sta_status s = WL_CONNECTED \<and> wifi_mode s = WIFI_STA)"

section \<open>Properties\<close>

subsection \<open>The wait loop\<close>

lemma waited_Suc: "waited env k (delay 500 (polled env s)) = waited env (Suc k) s"
  by (simp add: waited_def delay_def polled_def algebra_simps)

lemma waited_0: "polled env s = waited env 0 s"
  by (simp add: waited_def polled_def)

lemma wait_loop_shape:
  "\<exists>k. wait_loop env st s = waited env k s
     \<and> (\<forall>j<k. env (polls s + j) \<noteq> WL_CONNECTED \<and> clock s + 500 * of_nat j - st < WIFI_TIMEOUT)
     \<and> (env (polls s + k) = WL_CONNECTED \<or> \<not> clock s + 500 * of_nat k - st < WIFI_TIMEOUT)"
proof (induction env st s rule: wait_loop.induct)
  case (1 env st s)
  let ?c = "WiFi_status env s \<noteq> WL_CONNECTED \<and> millis (polled env s) - st < WIFI_TIMEOUT"
  show ?case
  proof (cases ?c)
    case False
    then have "wait_loop env st s = polled env s"
      by (subst wait_loop.simps) (simp only: if_False)
    then have "wait_loop env st s = waited env 0 s"
      by (simp only: waited_0)
    moreover from False have "env (polls s) = WL_CONNECTED \<or> \<not> clock s - st < WIFI_TIMEOUT"
      by (auto simp: WiFi_status_def millis_def polled_def)
    ultimately show ?thesis
      by (intro exI [of _ 0]) simp
  next
    case True
    let ?s' = "delay 500 (polled env s)"
    from True have c0: "env (polls s) \<noteq> WL_CONNECTED" "clock s - st < WIFI_TIMEOUT"
      by (simp_all add: WiFi_status_def millis_def polled_def)
    from "1.IH" [OF True] obtain k where
      k: "wait_loop env st ?s' = waited env k ?s'"
         "\<forall>j<k. env (polls ?s' + j) \<noteq> WL_CONNECTED \<and> clock ?s' + 500 * of_nat j - st < WIFI_TIMEOUT"
         "env (polls ?s' + k) = WL_CONNECTED \<or> \<not> clock ?s' + 500 * of_nat k - st < WIFI_TIMEOUT"
      by blast
    have p: "polls ?s' = Suc (polls s)" and c: "clock ?s' = clock s + 500"
      by (simp_all add: delay_def polled_def)
    from True have "wait_loop env st s = wait_loop env st ?s'"
      by (subst wait_loop.simps) simp
    with k(1) have "wait_loop env st s = waited env (Suc k) s"
      by (simp only: waited_Suc)
    moreover have "\<forall>j<Suc k. env (polls s + j) \<noteq> WL_CONNECTED
        \<and> clock s + 500 * of_nat j - st < WIFI_TIMEOUT"
    proof (intro allI impI)
      fix j assume "j < Suc k"
      show "env (polls s + j) \<noteq> WL_CONNECTED \<and> clock s + 500 * of_nat j - st < WIFI_TIMEOUT"
      proof (cases j)
        case 0
        with c0 show ?thesis by simp
      next
        case (Suc i)
        with \<open>j < Suc k\<close> have "i < k" by simp
        with k(2) have "env (polls ?s' + i) \<noteq> WL_CONNECTED
            \<and> clock ?s' + 500 * of_nat i - st < WIFI_TIMEOUT" by blast
        with Suc show ?thesis by (simp add: p c algebra_simps)
      qed
    qed
    moreover from k(3) have "env (polls s + Suc k) = WL_CONNECTED
        \<or> \<not> clock s + 500 * of_nat (Suc k) - st < WIFI_TIMEOUT"
      by (simp add: p c algebra_simps)
    ultimately show ?thesis by blast
  qed
qed

lemma steps_bound:
  assumes "\<forall>j<k. (500 * of_nat j :: 32 word) < 10000"
  shows "k \<le> 20"
proof (rule ccontr)
  assume "\<not> k \<le> 20"
  then have "20 < k" by simp
  with assms have "(500 * of_nat (20::nat) :: 32 word) < 10000" by blast
  then show False by simp
qed

lemma steps_deadline:
  assumes "k \<le> 20" and "\<not> (500 * of_nat k :: 32 word) < 10000"
  shows "k = 20"
proof -
  from assms(1) have "unat (500 * of_nat k :: 32 word) = 500 * k"
    by (simp add: unat_word_ariths unat_of_nat)
  with assms(2) have "\<not> 500 * k < 10000"
    by (simp add: word_less_nat_alt)
  with assms(1) show ?thesis by simp
qed

text \<open>
  The loop of a connection attempt goes round some \<open>k \<le> 20\<close> times: no reading before
  the \<open>k\<close>-th says connected, and the \<open>k\<close>-th does or the ten seconds are over.
\<close>

lemma connectToWiFi_shape:
  "\<exists>k\<le>20. connectToWiFi env n p s = connect_after env n p k s
     \<and> (\<forall>j<k. env (polls s + j) \<noteq> WL_CONNECTED)
     \<and> (env (polls s + k) = WL_CONNECTED \<or> k = 20)"
proof -
  let ?s2 = "WiFi_begin n p (WiFi_mode WIFI_STA s)"
  have p2: "polls ?s2 = polls s" and c2: "millis ?s2 = clock ?s2"
    by (simp_all add: WiFi_begin_def WiFi_mode_def millis_def)
  from wait_loop_shape [of env "millis ?s2" ?s2] obtain k where
    k: "wait_loop env (millis ?s2) ?s2 = waited env k ?s2"
       "\<forall>j<k. env (polls s + j) \<noteq> WL_CONNECTED \<and> (500 * of_nat j :: 32 word) < 10000"
       "env (polls s + k) = WL_CONNECTED \<or> \<not> (500 * of_nat k :: 32 word) < 10000"
    unfolding p2 c2 by (auto simp: WIFI_TIMEOUT_def)
  from k(2) have le: "k \<le> 20"
    by (intro steps_bound) blast
  from k(1) have "connectToWiFi env n p s = connect_after env n p k s"
    by (simp add: connectToWiFi_def connect_after_def Let_def WiFi_status_def polled_def)
  moreover from k(3) le have "env (polls s + k) = WL_CONNECTED \<or> k = 20"
    using steps_deadline by blast
  ultimately show ?thesis
    using k(2) le by blast
qed

subsection \<open>Termination of a connection attempt\<close>

text \<open>
  Claim C9. Every connection attempt returns: \<open>connectToWiFi\<close> is a total function
  (its loop is defined with a termination proof), and for every sequence of status
  readings its loop goes round some \<open>k \<le> 20\<close> times, each time waiting 500 ms, so that it
  ends after \<open>500 * k \<le> 10000\<close> ms and \<open>k + 2\<close> readings. It goes on only while no
  reading says connected, and stops at the first that does, or else at \<open>k = 20\<close>, when
  the ten seconds of \<open>WIFI_TIMEOUT\<close> are over. The result is the reading taken after
  the loop.
\<close>

theorem connectToWiFi_terminates:
  "\<exists>k\<le>20. polls (snd (connectToWiFi env n p s)) = polls s + k + 2
      \<and> clock (snd (connectToWiFi env n p s)) = clock s + 500 * of_nat k
      \<and> (\<forall>j<k. env (polls s + j) \<noteq> WL_CONNECTED)
      \<and> (env (polls s + k) = WL_CONNECTED \<or> k = 20)
      \<and> fst (connectToWiFi env n p s) = (env (polls s + k + 1) = WL_CONNECTED)"
proof -
  from connectToWiFi_shape [of env n p s] obtain k where
    k: "k \<le> 20" "connectToWiFi env n p s = connect_after env n p k s"
       "\<forall>j<k. env (polls s + j) \<noteq> WL_CONNECTED"
       "env (polls s + k) = WL_CONNECTED \<or> k = 20"
    by blast
  have "polls (snd (connect_after env n p k s)) = polls s + k + 2"
    and "clock (snd (connect_after env n p k s)) = clock s + 500 * of_nat k"
    and "fst (connect_after env n p k s) = (env (polls s + k + 1) = WL_CONNECTED)"
    by (simp_all add: connect_after_def Let_def polled_def waited_def WiFi_begin_def
        WiFi_mode_def WiFi_disconnect_def)
  with k show ?thesis
    by (intro exI [of _ k]) simp
qed

theorem connectToWiFi_terminates_witness:
  "fst (connectToWiFi (connected_from 3) ''home'' ''secret123'' (power_on Map.empty))
   \<and> clock (snd (connectToWiFi (connected_from 3) ''home'' ''secret123'' (power_on Map.empty))) = 1500
   \<and> polls (snd (connectToWiFi (connected_from 3) ''home'' ''secret123'' (power_on Map.empty))) = 5"
proof -
  let ?r = "connectToWiFi (connected_from 3) ''home'' ''secret123'' (power_on Map.empty)"
  from connectToWiFi_terminates [of "connected_from 3" "''home''" "''secret123''" "power_on Map.empty"]
  obtain k where
    k: "polls (snd ?r) = k + 2" "clock (snd ?r) = 500 * of_nat k"
       "\<forall>j<k. connected_from 3 j \<noteq> WL_CONNECTED"
       "connected_from 3 k = WL_CONNECTED \<or> k = 20"
       "fst ?r = (connected_from 3 (k + 1) = WL_CONNECTED)"
    by (auto simp: power_on_def)
  have "\<not> 3 < k"
  proof
    assume "3 < k"
    with k(3) have "connected_from 3 3 \<noteq> WL_CONNECTED" by blast
    then show False by (simp add: connected_from_def)
  qed
  moreover from k(4) have "3 \<le> k"
    by (auto simp: connected_from_def split: if_splits)
  ultimately have "k = 3" by simp
  with k show ?thesis by (simp add: connected_from_def)
qed

subsection \<open>What a connection attempt changes\<close>

lemma connect_after_frame:
  "nvs (snd (connect_after env n p k s)) = nvs s"
  "ssid (snd (connect_after env n p k s)) = ssid s"
  "password (snd (connect_after env n p k s)) = password s"
  "booted (snd (connect_after env n p k s)) = booted s"
  "softAP (snd (connect_after env n p k s)) = softAP s"
  "dns (snd (connect_after env n p k s)) = dns s"
  "responses (snd (connect_after env n p k s)) = responses s"
  "dns_answers (snd (connect_after env n p k s)) = dns_answers s"
  "attempts (snd (connect_after env n p k s)) = attempts s @ [(n, p)]"
  "wifi_mode (snd (connect_after env n p k s)) = WIFI_STA"
  by (simp_all add: connect_after_def Let_def polled_def waited_def WiFi_begin_def
      WiFi_mode_def WiFi_disconnect_def)

lemma connect_after_outcome:
  "configMode (snd (connect_after env n p k s)) = (\<not> fst (connect_after env n p k s) \<and> configMode s)"
  "sta_status (snd (connect_after env n p k s)) =
     (if fst (connect_after env n p k s) then WL_CONNECTED else WL_DISCONNECTED)"
  by (simp_all add: connect_after_def Let_def polled_def waited_def WiFi_begin_def
      WiFi_mode_def WiFi_disconnect_def)

lemma connectToWiFi_frame:
  "nvs (snd (connectToWiFi env n p s)) = nvs s"
  "ssid (snd (connectToWiFi env n p s)) = ssid s"
  "password (snd (connectToWiFi env n p s)) = password s"
  "booted (snd (connectToWiFi env n p s)) = booted s"
  "softAP (snd (connectToWiFi env n p s)) = softAP s"
  "dns (snd (connectToWiFi env n p s)) = dns s"
  "responses (snd (connectToWiFi env n p s)) = responses s"
  "dns_answers (snd (connectToWiFi env n p s)) = dns_answers s"
  "attempts (snd (connectToWiFi env n p s)) = attempts s @ [(n, p)]"
  "wifi_mode (snd (connectToWiFi env n p s)) = WIFI_STA"
  using connectToWiFi_shape [of env n p s] by (auto simp: connect_after_frame)

lemma connectToWiFi_outcome:
  "configMode (snd (connectToWiFi env n p s)) = (\<not> fst (connectToWiFi env n p s) \<and> configMode s)"
  "sta_status (snd (connectToWiFi env n p s)) =
     (if fst (connectToWiFi env n p s) then WL_CONNECTED else WL_DISCONNECTED)"
  using connectToWiFi_shape [of env n p s] by (auto simp: connect_after_outcome)

lemma connectToWiFi_never: "\<not> fst (connectToWiFi never_connected n p s)"
  by (simp add: connectToWiFi_def Let_def WiFi_status_def never_connected_def)

lemma connectToWiFi_always: "fst (connectToWiFi always_connected n p s)"
  by (simp add: connectToWiFi_def Let_def WiFi_status_def always_connected_def)

lemma startConfigPortal_fields:
  "nvs (startConfigPortal s) = nvs s"
  "ssid (startConfigPortal s) = ssid s"
  "password (startConfigPortal s) = password s"
  "booted (startConfigPortal s) = booted s"
  "polls (startConfigPortal s) = polls s"
  "attempts (startConfigPortal s) = attempts s"
  "responses (startConfigPortal s) = responses s"
  "dns_answers (startConfigPortal s) = dns_answers s"
  "configMode (startConfigPortal s)"
  "sta_status (startConfigPortal s) = WL_DISCONNECTED"
  "wifi_mode (startConfigPortal s) = WIFI_AP"
  "softAP (startConfigPortal s) = Some (ap_ssid, ap_password)"
  "dns (startConfigPortal s) = Some (''*'', IPAddress 192 168 4 1)"
  by (simp_all add: startConfigPortal_def Let_def WiFi_disconnect_def delay_def WiFi_mode_def
      WiFi_softAP_def dnsServer_start_def WiFi_softAPIP_def)

text \<open>The submission handler, with the attempt's outcome made explicit.\<close>

lemma handleConnect_unfold:
  "handleConnect env n p s =
     (let s5 = WiFi_softAPdisconnect (dnsServer_stop (saveCredentials n p
                 (delay 1000 (server_send 200 ''text/html'' (ConnectPage n) s))));
          r = connectToWiFi env n p s5
      in delay 100 (if fst r then (snd r)\<lparr>configMode := False\<rparr> else startConfigPortal (snd r)))"
  by (simp add: handleConnect_def Let_def split: prod.split)

lemma handleConnect_nvs:
  "nvs (handleConnect env n p s) = (nvs s)(''ssid'' \<mapsto> n, ''password'' \<mapsto> p)"
  by (simp add: handleConnect_unfold Let_def delay_def connectToWiFi_frame startConfigPortal_fields
      WiFi_softAPdisconnect_def dnsServer_stop_def saveCredentials_def putString_def server_send_def)

lemma handleConnect_attempts:
  "attempts (handleConnect env n p s) = attempts s @ [(n, p)]"
  by (simp add: handleConnect_unfold Let_def delay_def connectToWiFi_frame startConfigPortal_fields
      WiFi_softAPdisconnect_def dnsServer_stop_def saveCredentials_def putString_def server_send_def)

lemma setup_unfold:
  "setup_sketch env s =
     (let s2 = loadCredentials (delay 1000 s);
          r = connectToWiFi env (ssid s2) (password s2) s2
      in (if ssid s2 \<noteq> [] then (if fst r then snd r else startConfigPortal (snd r))
          else startConfigPortal s2)\<lparr>booted := True\<rparr>)"
  by (simp add: setup_sketch_def Let_def split: prod.split)

lemma loadCredentials_fields:
  "nvs (loadCredentials s) = nvs s"
  "ssid (loadCredentials s) = (case nvs s ''ssid'' of None \<Rightarrow> [] | Some v \<Rightarrow> v)"
  "password (loadCredentials s) = (case nvs s ''password'' of None \<Rightarrow> [] | Some v \<Rightarrow> v)"
  "booted (loadCredentials s) = booted s"
  "configMode (loadCredentials s) = configMode s"
  "polls (loadCredentials s) = polls s"
  "attempts (loadCredentials s) = attempts s"
  "responses (loadCredentials s) = responses s"
  "dns_answers (loadCredentials s) = dns_answers s"
  by (simp_all add: loadCredentials_def getString_def)

lemma delay_fields:
  "nvs (delay ms s) = nvs s"
  "ssid (delay ms s) = ssid s"
  "password (delay ms s) = password s"
  "booted (delay ms s) = booted s"
  "configMode (delay ms s) = configMode s"
  "sta_status (delay ms s) = sta_status s"
  "wifi_mode (delay ms s) = wifi_mode s"
  "softAP (delay ms s) = softAP s"
  "dns (delay ms s) = dns s"
  "polls (delay ms s) = polls s"
  "attempts (delay ms s) = attempts s"
  "responses (delay ms s) = responses s"
  "dns_answers (delay ms s) = dns_answers s"
  by (simp_all add: delay_def)

lemma setup_nvs: "nvs (setup_sketch env s) = nvs s"
  by (simp add: setup_unfold Let_def connectToWiFi_frame startConfigPortal_fields
      loadCredentials_fields delay_fields)

lemma setup_booted: "booted (setup_sketch env s)"
  by (simp add: setup_unfold Let_def)

lemma setup_never:
  "configMode (setup_sketch never_connected s)"
  "sta_status (setup_sketch never_connected s) = WL_DISCONNECTED"
  by (simp_all add: setup_unfold Let_def connectToWiFi_never startConfigPortal_fields)

lemma portal_home_fields:
  "nvs portal_home = home_flash"
  "booted portal_home"
  "configMode portal_home"
  by (simp_all add: portal_home_def setup_nvs setup_booted setup_never power_on_def)

lemma portal_home_attempts: "attempts portal_home = [(''home'', ''secret123'')]"
proof -
  let ?s2 = "loadCredentials (delay 1000 (power_on home_flash))"
  have "ssid ?s2 = ''home''" "password ?s2 = ''secret123''" "attempts ?s2 = []"
    by (simp_all add: loadCredentials_fields delay_fields power_on_def home_flash_def)
  then show ?thesis
    by (simp add: portal_home_def setup_unfold Let_def connectToWiFi_never connectToWiFi_frame
        startConfigPortal_fields)
qed

lemma handleConnect_booted: "booted (handleConnect env n p s) = booted s"
  by (simp add: handleConnect_unfold Let_def delay_def connectToWiFi_frame startConfigPortal_fields
      WiFi_softAPdisconnect_def dnsServer_stop_def saveCredentials_def putString_def server_send_def)

lemma handleConnect_outcome:
  "configMode (handleConnect env n p s) = (sta_status (handleConnect env n p s) \<noteq> WL_CONNECTED)"
  by (simp add: handleConnect_unfold Let_def delay_def connectToWiFi_outcome startConfigPortal_fields)

lemma handleConnect_never:
  "configMode (handleConnect never_connected n p s)"
  by (simp add: handleConnect_unfold Let_def delay_def connectToWiFi_never startConfigPortal_fields)

subsection \<open>Credential store\<close>

text \<open>
  Claim C7. Saving an identity and loading it again gives back its name and its
  secret unchanged, for every pair of strings (so for every well-formed identity within
  the length bounds), both in the same session and after a restart in between.
\<close>

theorem save_load_roundtrip:
  "ssid (loadCredentials (saveCredentials n p s)) = n
   \<and> password (loadCredentials (saveCredentials n p s)) = p
   \<and> ssid (loadCredentials (ESP_restart (saveCredentials n p s))) = n
   \<and> password (loadCredentials (ESP_restart (saveCredentials n p s))) = p"
  by (simp add: loadCredentials_def getString_def saveCredentials_def putString_def
      ESP_restart_def power_on_def)

text \<open>
  Claim C2, as stated, fails. With the credential of network home stored and the portal
  up, a submission for network office whose attempt fails leaves the device in the
  portal, and the store holds office, not home any more.
\<close>

theorem failed_submission_overwrites_counterexample:
  "in_mode PortalActive (handleConnect never_connected ''office'' ''pw'' portal_home)
   \<and> \<not> in_mode Connected (handleConnect never_connected ''office'' ''pw'' portal_home)
   \<and> nvs portal_home ''ssid'' = Some ''home''
   \<and> nvs (handleConnect never_connected ''office'' ''pw'' portal_home) ''ssid'' = Some ''office''
   \<and> nvs (handleConnect never_connected ''office'' ''pw'' portal_home) \<noteq> nvs portal_home"
proof -
  let ?s = "handleConnect never_connected ''office'' ''pw'' portal_home"
  have a: "nvs portal_home ''ssid'' = Some ''home''"
    by (simp add: portal_home_fields home_flash_def)
  have b: "nvs ?s ''ssid'' = Some ''office''"
    by (simp add: handleConnect_nvs)
  have "nvs ?s \<noteq> nvs portal_home"
  proof
    assume "nvs ?s = nvs portal_home"
    with a b have "Some ''office'' = Some ''home''" by simp
    then show False by simp
  qed
  moreover have "configMode ?s" "booted ?s" "sta_status ?s \<noteq> WL_CONNECTED"
    using handleConnect_outcome [of never_connected "''office''" "''pw''" portal_home]
    by (simp_all add: handleConnect_never handleConnect_booted portal_home_fields)
  ultimately show ?thesis using a b by simp
qed

text \<open>
  Claim C2, amended. Every submission writes the submitted identity to the credential
  store, whatever the outcome of the connection attempt: after the handler the store
  holds the submitted name and secret (and nothing else changed in it), whether the
  attempt succeeded or failed, and loading gives them back.
\<close>

theorem submission_always_persisted:
  "nvs (handleConnect env n p s) = (nvs s)(''ssid'' \<mapsto> n, ''password'' \<mapsto> p)
   \<and> ssid (loadCredentials (handleConnect env n p s)) = n
   \<and> password (loadCredentials (handleConnect env n p s)) = p"
  by (simp add: handleConnect_nvs loadCredentials_fields)

text \<open>
  Claim C1. The submission handler does not look at the submitted name. With an empty
  name it still stores the pair, replacing the stored credential, and still starts a
  connection attempt with the empty name.
\<close>

theorem empty_name_is_attempted:
  "attempts (handleConnect never_connected [] ''pw'' portal_home)
     = [(''home'', ''secret123''), ([], ''pw'')]
   \<and> nvs (handleConnect never_connected [] ''pw'' portal_home) ''ssid'' = Some []"
  by (simp add: handleConnect_attempts handleConnect_nvs portal_home_attempts)

subsection \<open>Boot and reset\<close>

lemma setup_no_credential:
  assumes "ssid (loadCredentials s) = []"
  shows "setup_sketch env s = (startConfigPortal (loadCredentials (delay 1000 s)))\<lparr>booted := True\<rparr>"
proof -
  from assms have "ssid (loadCredentials (delay 1000 s)) = []"
    by (simp add: loadCredentials_fields delay_fields)
  then show ?thesis
    by (simp add: setup_unfold Let_def)
qed

text \<open>
  Claim C4. When the name loaded from the credential store is empty, \<open>setup\<close> brings
  the device from Uninitialized straight to PortalActive: no connection attempt is
  started and the radio status is never read, so Connecting is not entered, and after
  \<open>setup\<close> PortalActive is the one mode that holds.
\<close>

theorem boot_without_credential:
  assumes "ssid (loadCredentials s) = []" and "\<not> booted s"
  shows "in_mode Uninitialized s
     \<and> attempts (setup_sketch env s) = attempts s
     \<and> polls (setup_sketch env s) = polls s
     \<and> modes_of (setup_sketch env s) = [PortalActive]"
  using assms
  by (simp add: setup_no_credential startConfigPortal_fields loadCredentials_fields
      delay_fields modes_of_def)

theorem boot_without_credential_witness:
  "ssid (loadCredentials (power_on Map.empty)) = []
   \<and> attempts (setup_sketch always_connected (power_on Map.empty)) = []
   \<and> modes_of (setup_sketch always_connected (power_on Map.empty)) = [PortalActive]"
proof -
  have a: "ssid (loadCredentials (power_on Map.empty)) = []"
    by (simp add: loadCredentials_fields power_on_def)
  have b: "\<not> booted (power_on Map.empty)"
    by (simp add: power_on_def)
  from boot_without_credential [OF a b, of always_connected] a show ?thesis
    by (simp add: power_on_def)
qed

lemma handleReset_fields:
  "nvs (handleReset s) = Map.empty"
  "\<not> booted (handleReset s)"
  "\<not> configMode (handleReset s)"
  "polls (handleReset s) = polls s"
  "attempts (handleReset s) = attempts s"
  "dns_answers (handleReset s) = dns_answers s"
  "responses (handleReset s) = responses s @ [(200, ''text/html'', ResetPage)]"
  by (simp_all add: handleReset_def Let_def ESP_restart_def power_on_def delay_def
      preferences_clear_def server_send_def)

text \<open>
  Claim C5. In every state, the reset handler erases the stored credential and restarts
  the device: afterwards the store is empty and the device is Uninitialized, a load
  gives no name and no secret, and the \<open>setup\<close> that follows the restart brings the
  device up in PortalActive, without a connection attempt.
\<close>

theorem reset_clears_and_restarts:
  "nvs (handleReset s) = Map.empty
   \<and> in_mode Uninitialized (handleReset s)
   \<and> ssid (loadCredentials (handleReset s)) = []
   \<and> password (loadCredentials (handleReset s)) = []
   \<and> modes_of (setup_sketch env (handleReset s)) = [PortalActive]
   \<and> attempts (setup_sketch env (handleReset s)) = attempts s"
proof -
  have e: "ssid (loadCredentials (handleReset s)) = []"
    by (simp add: loadCredentials_fields handleReset_fields)
  then show ?thesis
    by (simp add: setup_no_credential startConfigPortal_fields loadCredentials_fields
        delay_fields modes_of_def handleReset_fields)
qed

theorem reset_clears_and_restarts_witness:
  "nvs (handleReset portal_home) = Map.empty
   \<and> ssid (loadCredentials (handleReset portal_home)) = []
   \<and> modes_of (setup_sketch always_connected (handleReset portal_home)) = [PortalActive]
   \<and> attempts (setup_sketch always_connected (handleReset portal_home))
       = [(''home'', ''secret123'')]"
  using reset_clears_and_restarts [of portal_home always_connected]
  by (simp add: portal_home_attempts)

subsection \<open>One pass of the main loop\<close>

lemma loop_unfold:
  "loop env pins query req s =
     (let s2 = handleClient env pins req
                 (if configMode s then dnsServer_processNextRequest query s else s);
          r = connectToWiFi env (ssid s2) (password s2) (polled env s2)
      in if \<not> booted s2 then s2
         else delay 10
           (if configMode s2 then s2
            else if env (polls s2) \<noteq> WL_CONNECTED
                 then (if fst r then snd r else startConfigPortal (snd r))
                 else polled env s2))"
  by (simp add: loop_def Let_def WiFi_status_def split: prod.split)

lemma handleClient_other:
  assumes "\<forall>n p. req \<noteq> Some (POST_connect n p)" and "req \<noteq> Some POST_reset"
  shows "handleClient env pins req s = s\<lparr>responses := responses (handleClient env pins req s)\<rparr>"
proof (cases req)
  case None
  then show ?thesis
    by (simp add: handleClient_def)
next
  case (Some r)
  with assms show ?thesis
    by (cases r)
      (simp_all add: handleClient_def handleRoot_def handleConfigPage_def handleScan_def
        handleGPIOAPI_def Let_def server_send_def)
qed

lemma dns_step_fields:
  "nvs (dnsServer_processNextRequest query s) = nvs s"
  "ssid (dnsServer_processNextRequest query s) = ssid s"
  "password (dnsServer_processNextRequest query s) = password s"
  "booted (dnsServer_processNextRequest query s) = booted s"
  "configMode (dnsServer_processNextRequest query s) = configMode s"
  "polls (dnsServer_processNextRequest query s) = polls s"
  "attempts (dnsServer_processNextRequest query s) = attempts s"
  "consistent (dnsServer_processNextRequest query s) = consistent s"
  by (simp_all add: dnsServer_processNextRequest_def consistent_def
      split: option.split prod.split)

lemma consistent_responses [simp]: "consistent (s\<lparr>responses := rs\<rparr>) = consistent s"
  by (simp add: consistent_def)

lemma consistent_delay [simp]: "consistent (delay ms s) = consistent s"
  by (simp add: consistent_def delay_def)

lemma consistent_booted [simp]: "consistent (s\<lparr>booted := b\<rparr>) = consistent s"
  by (simp add: consistent_def)

lemma consistent_startConfigPortal [simp]: "consistent (startConfigPortal s)"
  by (simp add: consistent_def startConfigPortal_fields)

lemma consistent_connected:
  "fst (connectToWiFi env n p s) \<Longrightarrow> consistent (snd (connectToWiFi env n p s))"
  by (simp add: consistent_def connectToWiFi_outcome connectToWiFi_frame)

lemma consistent_handleConnect: "consistent (handleConnect env n p s)"
  by (simp add: handleConnect_unfold Let_def consistent_connected)
    (simp add: consistent_def connectToWiFi_outcome connectToWiFi_frame)

lemma consistent_setup: "consistent (setup_sketch env s)"
  by (simp add: setup_unfold Let_def consistent_connected)

lemma consistent_tail:
  assumes "consistent s" and "\<not> configMode s"
  shows "consistent
     (if env (polls s) \<noteq> WL_CONNECTED
      then (if fst (connectToWiFi env n p (polled env s))
            then snd (connectToWiFi env n p (polled env s))
            else startConfigPortal (snd (connectToWiFi env n p (polled env s))))
      else polled env s)"
proof (cases "env (polls s) = WL_CONNECTED")
  case True
  with assms show ?thesis
    by (simp add: consistent_def polled_def)
next
  case False
  then show ?thesis
    by (simp add: consistent_connected)
qed

lemma loop_consistent_step:
  assumes "booted s2 \<longrightarrow> consistent s2"
    and "s2 = handleClient env pins req
                (if configMode s then dnsServer_processNextRequest query s else s)"
  shows "booted (loop env pins query req s) \<longrightarrow> consistent (loop env pins query req s)"
proof (cases "booted s2")
  case False
  with assms(2) have "loop env pins query req s = s2"
    by (simp add: loop_unfold Let_def)
  with False show ?thesis by simp
next
  case True
  with assms(1) have c: "consistent s2" by simp
  show ?thesis
  proof (cases "configMode s2")
    case True
    with \<open>booted s2\<close> assms(2) have "loop env pins query req s = delay 10 s2"
      by (simp add: loop_unfold Let_def)
    with c show ?thesis by simp
  next
    case False
    with \<open>booted s2\<close> assms(2) have "loop env pins query req s = delay 10
       (if env (polls s2) \<noteq> WL_CONNECTED
        then (if fst (connectToWiFi env (ssid s2) (password s2) (polled env s2))
              then snd (connectToWiFi env (ssid s2) (password s2) (polled env s2))
              else startConfigPortal (snd (connectToWiFi env (ssid s2) (password s2) (polled env s2))))
        else polled env s2)"
      by (simp add: loop_unfold Let_def)
    with consistent_tail [OF c False, of env "ssid s2" "password s2"] show ?thesis
      by (simp only: consistent_delay simp_thms)
  qed
qed

lemma handleClient_consistent:
  assumes "consistent s"
  shows "booted (handleClient env pins req s) \<longrightarrow> consistent (handleClient env pins req s)"
proof (cases "req = Some POST_reset")
  case True
  then show ?thesis
    by (simp add: handleClient_def handleReset_fields)
next
  case nr: False
  show ?thesis
  proof (cases "\<exists>n p. req = Some (POST_connect n p)")
    case True
    then show ?thesis
      by (auto simp: handleClient_def consistent_handleConnect)
  next
    case False
    then have "\<forall>n p. req \<noteq> Some (POST_connect n p)" by simp
    from handleClient_other [OF this nr, of env pins s] assms show ?thesis
      by (metis consistent_responses)
  qed
qed

lemma loop_consistent:
  assumes "consistent s"
  shows "booted (loop env pins query req s) \<longrightarrow> consistent (loop env pins query req s)"
proof -
  let ?s1 = "if configMode s then dnsServer_processNextRequest query s else s"
  from assms have "consistent ?s1"
    by (simp add: dns_step_fields)
  then have "booted (handleClient env pins req ?s1) \<longrightarrow> consistent (handleClient env pins req ?s1)"
    by (rule handleClient_consistent)
  then show ?thesis
    by (rule loop_consistent_step) simp
qed

lemma reachable_consistent: "reachable s \<Longrightarrow> booted s \<longrightarrow> consistent s"
proof (induction rule: reachable.induct)
  case (reach_power_on flash)
  show ?case by (simp add: power_on_def)
next
  case (reach_setup s env)
  show ?case by (simp add: consistent_setup)
next
  case (reach_loop s env pins query req)
  then have "consistent s" by simp
  then show ?case by (rule loop_consistent)
qed

lemma reachable_portal_home: "reachable portal_home"
  unfolding portal_home_def
  by (intro reach_setup reach_power_on) (simp add: power_on_def)

subsection \<open>Modes\<close>

text \<open>
  Claim C3. At every observable instant exactly one of the four modes holds, and
  Connected and PortalActive never hold together. The two operations that set one of
  them clear the other: a successful \<open>connectToWiFi\<close> leaves the station connected and
  the portal flag off, \<open>startConfigPortal\<close> leaves the portal flag on and the station
  disconnected.
\<close>

theorem mode_invariant:
  assumes "reachable s"
  shows "(\<exists>!m. in_mode m s)
     \<and> \<not> (in_mode Connected s \<and> in_mode PortalActive s)
     \<and> (fst (connectToWiFi env n p t) \<longrightarrow>
          sta_status (snd (connectToWiFi env n p t)) = WL_CONNECTED
          \<and> \<not> configMode (snd (connectToWiFi env n p t)))
     \<and> configMode (startConfigPortal t) \<and> sta_status (startConfigPortal t) \<noteq> WL_CONNECTED"
proof -
  from assms have c: "booted s \<longrightarrow> consistent s"
    by (rule reachable_consistent)
  have one: "\<exists>!m. in_mode m s"
  proof (cases "booted s")
    case False
    show ?thesis
    proof (rule ex1I [of _ Uninitialized])
      from False show "in_mode Uninitialized s" by simp
    next
      fix m assume "in_mode m s"
      with False show "m = Uninitialized" by (cases m) simp_all
    qed
  next
    case True
    with c have cs: "consistent s" by simp
    show ?thesis
    proof (cases "configMode s")
      case cm: True
      show ?thesis
      proof (rule ex1I [of _ PortalActive])
        from True cm show "in_mode PortalActive s" by simp
      next
        fix m assume "in_mode m s"
        with True cm cs show "m = PortalActive"
          by (cases m) (simp_all add: consistent_def)
      qed
    next
      case cm: False
      show ?thesis
      proof (rule ex1I [of _ Connected])
        from True cm cs show "in_mode Connected s" by (simp add: consistent_def)
      next
        fix m assume "in_mode m s"
        with True cm cs show "m = Connected"
          by (cases m) (simp_all add: consistent_def)
      qed
    qed
  qed
  have two: "\<not> (in_mode Connected s \<and> in_mode PortalActive s)"
    using c by (auto simp: consistent_def)
  from one two show ?thesis
    by (simp add: connectToWiFi_outcome startConfigPortal_fields)
qed

theorem mode_invariant_witness:
  "reachable portal_home
   \<and> modes_of portal_home = [PortalActive]
   \<and> fst (connectToWiFi always_connected ''home'' ''secret123'' portal_home)
   \<and> \<not> configMode (snd (connectToWiFi always_connected ''home'' ''secret123'' portal_home))"
proof -
  have m: "modes_of portal_home = [PortalActive]"
    using mode_invariant [OF reachable_portal_home, of always_connected "''home''" "''secret123''" portal_home]
    by (auto simp: modes_of_def portal_home_fields)
  from mode_invariant [OF reachable_portal_home, of always_connected "''home''" "''secret123''" portal_home]
  have "\<not> configMode (snd (connectToWiFi always_connected ''home'' ''secret123'' portal_home))"
    by (simp add: connectToWiFi_always)
  with m show ?thesis
    by (simp add: connectToWiFi_always reachable_portal_home)
qed

subsection \<open>The portal\<close>

lemma handleConnect_fields:
  "ssid (handleConnect env n p s) = n"
  "password (handleConnect env n p s) = p"
  "dns_answers (handleConnect env n p s) = dns_answers s"
  by (simp_all add: handleConnect_unfold Let_def delay_def connectToWiFi_frame
      startConfigPortal_fields WiFi_softAPdisconnect_def dnsServer_stop_def saveCredentials_def
      putString_def server_send_def)

lemma handleClient_dns_answers:
  "dns_answers (handleClient env pins req s) = dns_answers s"
proof (cases "req = Some POST_reset")
  case True
  then show ?thesis
    by (simp add: handleClient_def handleReset_fields)
next
  case nr: False
  show ?thesis
  proof (cases "\<exists>n p. req = Some (POST_connect n p)")
    case True
    then show ?thesis
      by (auto simp: handleClient_def handleConnect_fields)
  next
    case False
    then have "\<forall>n p. req \<noteq> Some (POST_connect n p)" by simp
    from handleClient_other [OF this nr, of env pins s]
    have "dns_answers (handleClient env pins req s)
        = dns_answers (s\<lparr>responses := responses (handleClient env pins req s)\<rparr>)"
      by simp
    then show ?thesis by simp
  qed
qed

lemma loop_dns_answers:
  "dns_answers (loop env pins query req s)
     = dns_answers (if configMode s then dnsServer_processNextRequest query s else s)"
  by (simp add: loop_unfold Let_def delay_fields polled_def connectToWiFi_frame
      startConfigPortal_fields handleClient_dns_answers)

lemma loop_portal_other:
  assumes "booted s" and "configMode s"
    and "\<forall>n p. req \<noteq> Some (POST_connect n p)" and "req \<noteq> Some POST_reset"
  shows "loop env pins query req s =
     delay 10 ((dnsServer_processNextRequest query s)
       \<lparr>responses := responses (handleClient env pins req (dnsServer_processNextRequest query s))\<rparr>)"
proof -
  let ?s1 = "dnsServer_processNextRequest query s"
  let ?s2 = "handleClient env pins req ?s1"
  have e: "?s2 = ?s1\<lparr>responses := responses ?s2\<rparr>"
    by (rule handleClient_other [OF assms(3,4)])
  from assms(1,2) have "booted (?s1\<lparr>responses := responses ?s2\<rparr>)"
    and "configMode (?s1\<lparr>responses := responses ?s2\<rparr>)"
    by (simp_all add: dns_step_fields)
  with e have "booted ?s2" "configMode ?s2" by simp_all
  with assms(2) have "loop env pins query req s = delay 10 ?s2"
    by (simp add: loop_unfold Let_def)
  with e show ?thesis by simp
qed

lemma loop_portal_reset:
  assumes "configMode s"
  shows "loop env pins query (Some POST_reset) s = handleReset (dnsServer_processNextRequest query s)"
  using assms by (simp add: loop_unfold Let_def handleClient_def handleReset_fields)

lemma loop_portal_connect:
  assumes "booted s" and "configMode s"
  shows "attempts (loop env pins query (Some (POST_connect n p)) s) = attempts s @ [(n, p)]
       \<or> attempts (loop env pins query (Some (POST_connect n p)) s) = attempts s @ [(n, p), (n, p)]"
proof -
  let ?s1 = "dnsServer_processNextRequest query s"
  let ?s2 = "handleConnect env n p ?s1"
  have a: "attempts ?s2 = attempts s @ [(n, p)]" "booted ?s2" "ssid ?s2 = n" "password ?s2 = p"
    using assms(1) by (simp_all add: handleConnect_attempts handleConnect_booted
        handleConnect_fields dns_step_fields)
  from assms(2) have "loop env pins query (Some (POST_connect n p)) s =
     delay 10
       (if configMode ?s2 then ?s2
        else if env (polls ?s2) \<noteq> WL_CONNECTED
             then (if fst (connectToWiFi env n p (polled env ?s2))
                   then snd (connectToWiFi env n p (polled env ?s2))
                   else startConfigPortal (snd (connectToWiFi env n p (polled env ?s2))))
             else polled env ?s2)"
    using a(2,3,4) by (simp add: loop_unfold Let_def handleClient_def)
  then show ?thesis
    using a(1) by (simp add: delay_fields connectToWiFi_frame startConfigPortal_fields polled_def)
qed

text \<open>
  Claim C6. A pass of the main loop taken in PortalActive starts no connection attempt
  and reads no radio status, unless the request it serves is a submission: with any
  other request or none, the device stays in PortalActive, or restarts when the request
  is a reset. With a submission, every attempt of the pass is for the submitted
  identity. So PortalActive is left only through a submission or a reset.
\<close>

theorem portal_tick_no_spontaneous_attempt:
  assumes "in_mode PortalActive s"
  shows "((\<forall>n p. req \<noteq> Some (POST_connect n p)) \<longrightarrow>
            attempts (loop env pins query req s) = attempts s
            \<and> polls (loop env pins query req s) = polls s
            \<and> (if req = Some POST_reset then in_mode Uninitialized (loop env pins query req s)
               else in_mode PortalActive (loop env pins query req s)))
     \<and> (\<forall>n p. req = Some (POST_connect n p) \<longrightarrow>
            attempts (loop env pins query req s) = attempts s @ [(n, p)]
            \<or> attempts (loop env pins query req s) = attempts s @ [(n, p), (n, p)])"
proof -
  from assms have b: "booted s" and c: "configMode s" by simp_all
  have first: "attempts (loop env pins query req s) = attempts s
      \<and> polls (loop env pins query req s) = polls s
      \<and> (if req = Some POST_reset then in_mode Uninitialized (loop env pins query req s)
         else in_mode PortalActive (loop env pins query req s))"
    if nc: "\<forall>n p. req \<noteq> Some (POST_connect n p)"
  proof (cases "req = Some POST_reset")
    case True
    with c show ?thesis
      by (simp add: loop_portal_reset handleReset_fields dns_step_fields)
  next
    case False
    with b c show ?thesis
      by (simp add: loop_portal_other [OF b c nc False] delay_fields dns_step_fields)
  qed
  from first loop_portal_connect [OF b c] show ?thesis by blast
qed

theorem portal_tick_no_spontaneous_attempt_witness:
  "in_mode PortalActive portal_home
   \<and> attempts (loop always_connected pins_3_high None (Some GET_scan) portal_home)
       = [(''home'', ''secret123'')]
   \<and> in_mode PortalActive (loop always_connected pins_3_high None (Some GET_scan) portal_home)"
proof -
  have a: "in_mode PortalActive portal_home"
    by (simp add: portal_home_fields)
  from portal_tick_no_spontaneous_attempt [OF a, of "Some GET_scan" always_connected pins_3_high None]
    a show ?thesis
    by (simp add: portal_home_attempts)
qed

text \<open>
  Claim C8. While the portal is active, a pass of the main loop with a name-resolution
  query pending answers it, whatever the name, with the address of the device's own
  broadcast network; a servicing pass with no query pending changes nothing.
\<close>

theorem captive_resolver_wildcard:
  assumes "reachable s" and "in_mode PortalActive s"
  shows "dns_answers (loop env pins (Some name) req s)
           = dns_answers s @ [(name, Some (WiFi_softAPIP s))]
     \<and> WiFi_softAPIP s = IPAddress 192 168 4 1
     \<and> dnsServer_processNextRequest None s = s
     \<and> dns_answers (loop env pins None req s) = dns_answers s"
proof -
  from assms(2) have b: "booted s" and c: "configMode s" by simp_all
  from reachable_consistent [OF assms(1)] b have "consistent s" by simp
  with c have d: "dns s = Some (''*'', IPAddress 192 168 4 1)"
    and ap: "softAP s = Some (ap_ssid, ap_password)"
    by (simp_all add: consistent_def)
  from ap have ip: "WiFi_softAPIP s = IPAddress 192 168 4 1"
    by (simp add: WiFi_softAPIP_def)
  from c d ip show ?thesis
    by (simp add: loop_dns_answers dnsServer_processNextRequest_def)
qed

theorem captive_resolver_wildcard_witness:
  "reachable portal_home
   \<and> in_mode PortalActive portal_home
   \<and> dns_answers (loop never_connected pins_3_high (Some ''example.org'') None portal_home)
     = [(''example.org'', Some (IPAddress 192 168 4 1))]
   \<and> dns_answers (loop never_connected pins_3_high None None portal_home) = []"
proof -
  have a: "in_mode PortalActive portal_home"
    by (simp add: portal_home_fields)
  have d: "dns_answers portal_home = []"
    by (simp add: portal_home_def setup_unfold Let_def connectToWiFi_frame
        startConfigPortal_fields loadCredentials_fields delay_fields power_on_def)
  from captive_resolver_wildcard [OF reachable_portal_home a, of never_connected pins_3_high _ None]
    a d show ?thesis
    by (simp add: reachable_portal_home)
qed

subsection \<open>The JSON endpoint\<close>

lemma String_of_int_pins:
  "String_of_int 0 = ''0''" "String_of_int 1 = ''1''" "String_of_int 3 = ''3''"
  "String_of_int 4 = ''4''" "String_of_int 5 = ''5''"
  by (simp_all add: String_of_int_def dec.simps)

lemma render_pin_entry:
  \<open>render (pin_entry pins pin) =
     ''{"gpio":'' @ String_of_int pin @ '',"state":"''
       @ (if digitalRead pins pin = HIGH then ''HIGH'' else ''LOW'') @ ''"}''\<close>
  by (simp add: pin_entry_def digitalRead_def)

lemma gpio_loop_step:
  "i < NUM_PINS \<Longrightarrow>
   gpio_loop pins i json =
     gpio_loop pins (Suc i)
       ((if i > 0 then json @ '','' else json) @ render (pin_entry pins (GPIO_PINS ! i)))"
  by (subst gpio_loop.simps) (simp add: Let_def render_pin_entry)

lemma gpio_loop_done: "\<not> i < NUM_PINS \<Longrightarrow> gpio_loop pins i json = json"
  by (subst gpio_loop.simps) simp

lemma gpio_loop_all:
  "gpio_loop pins 0 json =
     json @ join (map render (map (pin_entry pins) [0, 1, 3, 4, 5]))"
proof -
  have n: "(0::nat) < NUM_PINS" "Suc 0 < NUM_PINS" "Suc (Suc 0) < NUM_PINS"
    "Suc (Suc (Suc 0)) < NUM_PINS" "Suc (Suc (Suc (Suc 0))) < NUM_PINS"
    "\<not> Suc (Suc (Suc (Suc (Suc 0)))) < NUM_PINS"
    by (simp_all add: NUM_PINS_def)
  show ?thesis
    by (simp add: gpio_loop_step [OF n(1)] gpio_loop_step [OF n(2)] gpio_loop_step [OF n(3)]
        gpio_loop_step [OF n(4)] gpio_loop_step [OF n(5)] gpio_loop_done [OF n(6)]
        GPIO_PINS_def)
qed

text \<open>
  Claim C10. For every vector of pin levels the JSON endpoint answers 200,
  \<^verbatim>\<open>application/json\<close>, with the rendering of a JSON object: one member \<^verbatim>\<open>pins\<close>, an array
  of exactly five entries for the pins 0, 1, 3, 4, 5 in this order, each an object with
  the pin number and the state \<^verbatim>\<open>HIGH\<close> if the pin's level is HIGH and \<^verbatim>\<open>LOW\<close>
  otherwise. The answer depends on the levels of these five pins only, and the handler
  changes nothing of the device state but the record of what was sent.
\<close>

theorem handleGPIOAPI_document:
  "handleGPIOAPI pins s
     = s\<lparr>responses := responses s
           @ [(200, ''application/json'', Text (render (gpio_document pins)))]\<rparr>
   \<and> gpio_document pins =
       JObj [Member ''pins'' (JArr
         [JObj [Member ''gpio'' (JNum 0),
                Member ''state'' (JStr (if pins 0 = HIGH then ''HIGH'' else ''LOW''))],
          JObj [Member ''gpio'' (JNum 1),
                Member ''state'' (JStr (if pins 1 = HIGH then ''HIGH'' else ''LOW''))],
          JObj [Member ''gpio'' (JNum 3),
                Member ''state'' (JStr (if pins 3 = HIGH then ''HIGH'' else ''LOW''))],
          JObj [Member ''gpio'' (JNum 4),
                Member ''state'' (JStr (if pins 4 = HIGH then ''HIGH'' else ''LOW''))],
          JObj [Member ''gpio'' (JNum 5),
                Member ''state'' (JStr (if pins 5 = HIGH then ''HIGH'' else ''LOW''))]])]"
proof -
  have \<open>gpio_loop pins 0 ''{"pins":['' @ '']}'' = render (gpio_document pins)\<close>
    by (simp add: gpio_loop_all gpio_document_def)
  then show ?thesis
    by (simp add: handleGPIOAPI_def Let_def server_send_def gpio_document_def pin_entry_def)
qed

theorem handleGPIOAPI_document_witness:
  \<open>responses (handleGPIOAPI pins_3_high (power_on Map.empty)) =
     [(200, ''application/json'',
       Text (''{"pins":[{"gpio":0,"state":"LOW"},{"gpio":1,"state":"LOW"},''
           @ ''{"gpio":3,"state":"HIGH"},{"gpio":4,"state":"LOW"},{"gpio":5,"state":"LOW"}]}''))]\<close>
  using handleGPIOAPI_document [of pins_3_high "power_on Map.empty"]
  by (simp add: power_on_def pins_3_high_def HIGH_def String_of_int_pins)

end
